theory Spec2Isabelle
  imports Complex_Main "HOL-Library.Monad_Syntax"
begin

section \<open>JavaScript values and object literals\<close>

text \<open>
  The module \<^verbatim>\<open>src/index.ts\<close> exports interface declarations and two functions that
  return object literals. An object is modelled by the list of its own properties in
  creation order; a property that the literal does not write is absent from the list,
  which is different from a property that is present and holds \<^verbatim>\<open>undefined\<close>.
  The payload of type \<^verbatim>\<open>T\<close> is a type variable: the functions cannot inspect it, and
  instantiating it with a type of references gives identity of the stored payload.
\<close>

datatype 'a jsval =
    JUndefined
  | JBoolean bool
  | JNumber real
  | JString string
  | JPayload 'a

type_synonym 'a object = "(string \<times> 'a jsval) list"

definition getProp :: "'a object \<Rightarrow> string \<Rightarrow> 'a jsval option" where
  "getProp obj k = map_of obj k"

definition hasProperty :: "'a object \<Rightarrow> string \<Rightarrow> bool" where
  "hasProperty obj k = (case map_of obj k of None \<Rightarrow> False | Some v \<Rightarrow> True)"

section \<open>The wall clock and \<^verbatim>\<open>Date\<close>\<close>

text \<open>
  \<^verbatim>\<open>new Date()\<close> reads the wall clock. The world holds the readings the clock gives,
  in the order in which they are asked for, and the number of readings made so far.
  A reading is a time value: milliseconds since 1970-01-01T00:00:00Z, an integer of
  magnitude at most 8640000000000000 (ECMA-262, 21.4.1.1). Nothing makes the readings
  of a wall clock increase: the clock can be set back between two readings.
\<close>

record world =
  clock :: "nat \<Rightarrow> int"
  ticks :: nat

text \<open>
  A Date object holds a time value, or \<^verbatim>\<open>NaN\<close> (\<open>None\<close>) when the date is invalid.
  \<^verbatim>\<open>Date\<close> and \<^verbatim>\<open>toISOString\<close> are built-ins of the language, not code of the module;
  their definitions below follow the clauses of ECMA-262 that the headings name.
\<close>

datatype Date = Date "int option"

datatype exn = RangeError

definition Date_new :: "world \<Rightarrow> Date \<times> world" where
  "Date_new w = (Date (Some (clock w (ticks w))), w\<lparr>ticks := Suc (ticks w)\<rparr>)"

subsection \<open>Days, years, months and the time of day (ECMA-262, 21.4.1.3 to 21.4.1.14)\<close>

definition msPerDay :: int where
  "msPerDay = 86400000"

definition msPerHour :: int where
  "msPerHour = 3600000"

definition msPerMinute :: int where
  "msPerMinute = 60000"

definition msPerSecond :: int where
  "msPerSecond = 1000"

definition Day :: "int \<Rightarrow> int" where
  "Day t = t div msPerDay"

definition DaysInYear :: "int \<Rightarrow> int" where
  "DaysInYear y =
     (if y mod 4 \<noteq> 0 then 365
      else if y mod 100 \<noteq> 0 then 366
      else if y mod 400 \<noteq> 0 then 365
      else 366)"

definition DayFromYear :: "int \<Rightarrow> int" where
  "DayFromYear y =
     365 * (y - 1970) + (y - 1969) div 4 - (y - 1901) div 100 + (y - 1601) div 400"

definition TimeFromYear :: "int \<Rightarrow> int" where
  "TimeFromYear y = msPerDay * DayFromYear y"

text \<open>
  ECMA-262 gives \<^verbatim>\<open>YearFromTime(t)\<close> as the largest integer \<open>y\<close> with
  \<^verbatim>\<open>TimeFromYear(y) \<le> t\<close>. The mean length of a year is 146097 / 400 days, so the year
  is found from one estimate and one comparison; \<open>YearFromTime_largest\<close> below proves
  that this is the year of the standard.
\<close>

definition YearFromTime :: "int \<Rightarrow> int" where
  "YearFromTime t =
     (let y = 1970 + (400 * Day t + 506) div 146097
      in if TimeFromYear y \<le> t then y else y - 1)"

definition DayWithinYear :: "int \<Rightarrow> int" where
  "DayWithinYear t = Day t - DayFromYear (YearFromTime t)"

definition InLeapYear :: "int \<Rightarrow> int" where
  "InLeapYear t = (if DaysInYear (YearFromTime t) = 366 then 1 else 0)"

text \<open>
  Months are numbered from 0. The table of the standard ends at
  \<^verbatim>\<open>DayWithinYear(t) < 365 + InLeapYear(t)\<close>, which \<open>DayWithinYear_range\<close> proves of every
  time value, so the last branch is December.
\<close>

definition MonthFromTime :: "int \<Rightarrow> int" where
  "MonthFromTime t =
     (let d = DayWithinYear t; l = InLeapYear t
      in if d < 31 then 0
         else if d < 59 + l then 1
         else if d < 90 + l then 2
         else if d < 120 + l then 3
         else if d < 151 + l then 4
         else if d < 181 + l then 5
         else if d < 212 + l then 6
         else if d < 243 + l then 7
         else if d < 273 + l then 8
         else if d < 304 + l then 9
         else if d < 334 + l then 10
         else 11)"

definition DateFromTime :: "int \<Rightarrow> int" where
  "DateFromTime t =
     (let d = DayWithinYear t; l = InLeapYear t; m = MonthFromTime t
      in if m = 0 then d + 1
         else if m = 1 then d - 30
         else if m = 2 then d - 58 - l
         else if m = 3 then d - 89 - l
         else if m = 4 then d - 119 - l
         else if m = 5 then d - 150 - l
         else if m = 6 then d - 180 - l
         else if m = 7 then d - 211 - l
         else if m = 8 then d - 242 - l
         else if m = 9 then d - 272 - l
         else if m = 10 then d - 303 - l
         else d - 333 - l)"

definition HourFromTime :: "int \<Rightarrow> int" where
  "HourFromTime t = (t div msPerHour) mod 24"

definition MinFromTime :: "int \<Rightarrow> int" where
  "MinFromTime t = (t div msPerMinute) mod 60"

definition SecFromTime :: "int \<Rightarrow> int" where
  "SecFromTime t = (t div msPerSecond) mod 60"

definition msFromTime :: "int \<Rightarrow> int" where
  "msFromTime t = t mod msPerSecond"

subsection \<open>\<^verbatim>\<open>Date.prototype.toISOString\<close> (ECMA-262, 21.4.4.36 and 21.4.1.32)\<close>

definition digit :: "nat \<Rightarrow> char" where
  "digit n = char_of (48 + n)"

fun decimal :: "nat \<Rightarrow> string" where
  "decimal n = (if n < 10 then [digit n] else decimal (n div 10) @ [digit (n mod 10)])"

declare decimal.simps [simp del]

text \<open>\<^verbatim>\<open>ToZeroPaddedDecimalString(n, minLength)\<close>: the decimal digits, padded on the left.\<close>

definition ToZeroPaddedDecimalString :: "nat \<Rightarrow> nat \<Rightarrow> string" where
  "ToZeroPaddedDecimalString n minLength =
     replicate (minLength - length (decimal n)) (CHR ''0'') @ decimal n"

text \<open>
  Years 0 to 9999 are written with four digits, every other year in the expanded form:
  a sign and six digits. Six digits are enough for the year of every time value
  (\<open>YearFromTime_time_value\<close>).
\<close>

definition yearString :: "int \<Rightarrow> string" where
  "yearString y =
     (if 0 \<le> y \<and> y \<le> 9999 then ToZeroPaddedDecimalString (nat y) 4
      else (if y < 0 then ''-'' else ''+'') @ ToZeroPaddedDecimalString (nat \<bar>y\<bar>) 6)"

definition ISOString :: "int \<Rightarrow> string" where
  "ISOString tv =
     yearString (YearFromTime tv) @ ''-'' @
     ToZeroPaddedDecimalString (nat (MonthFromTime tv + 1)) 2 @ ''-'' @
     ToZeroPaddedDecimalString (nat (DateFromTime tv)) 2 @ ''T'' @
     ToZeroPaddedDecimalString (nat (HourFromTime tv)) 2 @ '':'' @
     ToZeroPaddedDecimalString (nat (MinFromTime tv)) 2 @ '':'' @
     ToZeroPaddedDecimalString (nat (SecFromTime tv)) 2 @ ''.'' @
     ToZeroPaddedDecimalString (nat (msFromTime tv)) 3 @ ''Z''"

fun toISOString :: "Date \<Rightarrow> exn + string" where
  "toISOString (Date None) = Inl RangeError"
| "toISOString (Date (Some tv)) = Inr (ISOString tv)"

section \<open>The helper functions of \<^verbatim>\<open>src/index.ts\<close>\<close>

text \<open>
  Lines 43 to 57. An exception of \<^verbatim>\<open>toISOString\<close> is not caught and leaves the function.
\<close>

definition successResponse :: "'a \<Rightarrow> world \<Rightarrow> (exn + 'a object) \<times> world" where
  "successResponse data w =
     (case Date_new w of (d, w') \<Rightarrow>
        (case toISOString d of
           Inl e \<Rightarrow> (Inl e, w')
         | Inr ts \<Rightarrow>
             (Inr [(''success'', JBoolean True),
                   (''data'', JPayload data),
                   (''timestamp'', JString ts)], w')))"

definition errorResponse :: "string \<Rightarrow> world \<Rightarrow> (exn + 'a object) \<times> world" where
  "errorResponse error w =
     (case Date_new w of (d, w') \<Rightarrow>
        (case toISOString d of
           Inl e \<Rightarrow> (Inl e, w')
         | Inr ts \<Rightarrow>
             (Inr [(''success'', JBoolean False),
                   (''error'', JString error),
                   (''timestamp'', JString ts)], w')))"

text \<open>
  Lines 211 to 255: the documented copy of the module declares both functions again.
\<close>

definition successResponse_v2 :: "'a \<Rightarrow> world \<Rightarrow> (exn + 'a object) \<times> world" where
  "successResponse_v2 data w =
     (case Date_new w of (d, w') \<Rightarrow>
        (case toISOString d of
           Inl e \<Rightarrow> (Inl e, w')
         | Inr ts \<Rightarrow>
             (Inr [(''success'', JBoolean True),
                   (''data'', JPayload data),
                   (''timestamp'', JString ts)], w')))"

definition errorResponse_v2 :: "string \<Rightarrow> world \<Rightarrow> (exn + 'a object) \<times> world" where
  "errorResponse_v2 error w =
     (case Date_new w of (d, w') \<Rightarrow>
        (case toISOString d of
           Inl e \<Rightarrow> (Inl e, w')
         | Inr ts \<Rightarrow>
             (Inr [(''success'', JBoolean False),
                   (''error'', JString error),
                   (''timestamp'', JString ts)], w')))"

section \<open>The declared shapes\<close>

text \<open>
  An interface declaration is a structural condition on an object: a required property
  is present with a value of its type, an optional property (\<^verbatim>\<open>name?: type\<close>) is absent,
  or present with \<^verbatim>\<open>undefined\<close> or a value of its type.
\<close>

definition isUndefined :: "'a jsval \<Rightarrow> bool" where
  "isUndefined v = (case v of JUndefined \<Rightarrow> True | _ \<Rightarrow> False)"

definition isBoolean :: "'a jsval \<Rightarrow> bool" where
  "isBoolean v = (case v of JBoolean b \<Rightarrow> True | _ \<Rightarrow> False)"

definition isNumber :: "'a jsval \<Rightarrow> bool" where
  "isNumber v = (case v of JNumber n \<Rightarrow> True | _ \<Rightarrow> False)"

definition isString :: "'a jsval \<Rightarrow> bool" where
  "isString v = (case v of JString s \<Rightarrow> True | _ \<Rightarrow> False)"

definition required :: "'a object \<Rightarrow> string \<Rightarrow> ('a jsval \<Rightarrow> bool) \<Rightarrow> bool" where
  "required obj k ty = (case getProp obj k of None \<Rightarrow> False | Some v \<Rightarrow> ty v)"

definition optional :: "'a object \<Rightarrow> string \<Rightarrow> ('a jsval \<Rightarrow> bool) \<Rightarrow> bool" where
  "optional obj k ty =
     (case getProp obj k of None \<Rightarrow> True | Some v \<Rightarrow> isUndefined v \<or> ty v)"

text \<open>Lines 11 to 16.\<close>

definition ConvertRequest :: "'a object \<Rightarrow> bool" where
  "ConvertRequest obj \<longleftrightarrow>
     required obj ''original'' isString \<and>
     optional obj ''filename'' isString"

text \<open>Lines 95 to 104.\<close>

definition ConvertRequest_v2 :: "'a object \<Rightarrow> bool" where
  "ConvertRequest_v2 obj \<longleftrightarrow>
     required obj ''original'' isString \<and>
     optional obj ''filename'' isString \<and>
     optional obj ''quality'' isNumber \<and>
     optional obj ''transparentBg'' isBoolean"

text \<open>Leaving a property out of an object.\<close>

definition omit :: "string \<Rightarrow> 'a object \<Rightarrow> 'a object" where
  "omit k obj = filter (\<lambda>p. fst p \<noteq> k) obj"

section \<open>Properties of envelopes\<close>

text \<open>
  The invariant of the response envelope, in the words of the specification: exactly one
  of \<^verbatim>\<open>data\<close> and \<^verbatim>\<open>error\<close> is present, \<^verbatim>\<open>success\<close> says which, and \<^verbatim>\<open>timestamp\<close> is
  present.
\<close>

definition envelope_invariant :: "'a object \<Rightarrow> bool" where
  "envelope_invariant obj =
     (case getProp obj ''success'' of
        Some (JBoolean b) \<Rightarrow>
          hasProperty obj ''data'' = b \<and>
          hasProperty obj ''error'' = (\<not> b) \<and>
          hasProperty obj ''timestamp''
      | _ \<Rightarrow> False)"

section \<open>Comparing and recognising timestamps\<close>

text \<open>
  The relational operators on strings compare code units, and a proper prefix is less
  than the longer string (ECMA-262, 7.2.13 \<^verbatim>\<open>IsLessThan\<close>). \<^verbatim>\<open>a >= b\<close> is the negation of
  \<^verbatim>\<open>a < b\<close>.
\<close>

fun IsLessThan :: "string \<Rightarrow> string \<Rightarrow> bool" where
  "IsLessThan xs [] = False"
| "IsLessThan [] (y # ys) = True"
| "IsLessThan (x # xs) (y # ys) =
     (if x = y then IsLessThan xs ys else (of_char x :: nat) < of_char y)"

definition string_ge :: "string \<Rightarrow> string \<Rightarrow> bool" where
  "string_ge a b = (\<not> IsLessThan a b)"

text \<open>
  The form \<^verbatim>\<open>YYYY-MM-DDTHH:mm:ss.sssZ\<close>: the letters \<^verbatim>\<open>Y\<close>, \<^verbatim>\<open>M\<close>, \<^verbatim>\<open>D\<close>, \<^verbatim>\<open>H\<close>, \<^verbatim>\<open>m\<close>
  and \<^verbatim>\<open>s\<close> of the pattern stand for one decimal digit each, every other character of
  the pattern for itself.
\<close>

definition is_digit :: "char \<Rightarrow> bool" where
  "is_digit c = (48 \<le> (of_char c :: nat) \<and> (of_char c :: nat) \<le> 57)"

definition placeholder :: "char \<Rightarrow> bool" where
  "placeholder p = (p \<in> set ''YMDHms'')"

fun matches :: "string \<Rightarrow> string \<Rightarrow> bool" where
  "matches [] [] = True"
| "matches (p # ps) (c # cs) = ((if placeholder p then is_digit c else c = p) \<and> matches ps cs)"
| "matches [] (c # cs) = False"
| "matches (p # ps) [] = False"

definition iso_form :: "string \<Rightarrow> bool" where
  "iso_form s = matches ''YYYY-MM-DDTHH:mm:ss.sssZ'' s"

text \<open>
  The same form with an expanded year: a sign and six digits for the year.
\<close>

definition expanded_form :: "string \<Rightarrow> bool" where
  "expanded_form s =
     (case s of
        [] \<Rightarrow> False
      | c # cs \<Rightarrow> (c = CHR ''+'' \<or> c = CHR ''-'') \<and> matches ''YYYYYY-MM-DDTHH:mm:ss.sssZ'' cs)"

text \<open>The time values whose year is written with four digits.\<close>

definition fourDigitYear :: "int \<Rightarrow> bool" where
  "fourDigitYear tv \<longleftrightarrow> 0 \<le> YearFromTime tv \<and> YearFromTime tv \<le> 9999"

text \<open>The range of time values (ECMA-262, 21.4.1.1); every reading of the clock is in it.\<close>

definition time_value :: "int \<Rightarrow> bool" where
  "time_value tv \<longleftrightarrow> - 8640000000000000 \<le> tv \<and> tv \<le> 8640000000000000"

subsection \<open>The instant that a timestamp denotes (ECMA-262, 21.4.1.28 to 21.4.1.32, 21.4.3.2)\<close>

definition MakeTime :: "int \<Rightarrow> int \<Rightarrow> int \<Rightarrow> int \<Rightarrow> int" where
  "MakeTime hour minute sec ms =
     hour * msPerHour + minute * msPerMinute + sec * msPerSecond + ms"

text \<open>The day within the year on which month \<open>mn\<close> (from 0) begins; \<open>l\<close> is 1 in a leap year.\<close>

definition DayFromMonth :: "int \<Rightarrow> int \<Rightarrow> int" where
  "DayFromMonth mn l =
     (if mn = 0 then 0
      else if mn = 1 then 31
      else if mn = 2 then 59 + l
      else if mn = 3 then 90 + l
      else if mn = 4 then 120 + l
      else if mn = 5 then 151 + l
      else if mn = 6 then 181 + l
      else if mn = 7 then 212 + l
      else if mn = 8 then 243 + l
      else if mn = 9 then 273 + l
      else if mn = 10 then 304 + l
      else 334 + l)"

definition DaysInMonth :: "int \<Rightarrow> int \<Rightarrow> int" where
  "DaysInMonth mn l =
     (if mn = 1 then 28 + l
      else if mn = 3 \<or> mn = 5 \<or> mn = 8 \<or> mn = 10 then 30
      else 31)"

text \<open>
  The standard gives \<^verbatim>\<open>MakeDay(year, month, date)\<close> through a time value \<open>t\<close> whose year is
  \<open>ym\<close>, whose month is \<open>mn\<close> and whose date is 1, as \<^verbatim>\<open>Day(t) + date - 1\<close>;
  \<open>MakeDay_first_of_month\<close> proves that the day computed here is the day of such a \<open>t\<close>.
\<close>

definition MakeDay :: "int \<Rightarrow> int \<Rightarrow> int \<Rightarrow> int" where
  "MakeDay year month date =
     (let ym = year + month div 12;
          mn = month mod 12;
          l = (if DaysInYear ym = 366 then 1 else 0)
      in DayFromYear ym + DayFromMonth mn l + date - 1)"

definition MakeDate :: "int \<Rightarrow> int \<Rightarrow> int" where
  "MakeDate day time = day * msPerDay + time"

text \<open>
  \<^verbatim>\<open>Date.parse\<close> on the Date Time String Format with the offset \<^verbatim>\<open>Z\<close>: the fields are read
  as decimal numbers and put together by \<^verbatim>\<open>MakeDay\<close>, \<^verbatim>\<open>MakeTime\<close> and \<^verbatim>\<open>MakeDate\<close>.
  A string that is not a valid instance of the format (another shape, a field out of range,
  the year \<^verbatim>\<open>-000000\<close>, an instant outside the time values) denotes no instant: the
  result is \<open>None\<close>. The notation \<^verbatim>\<open>24:00:00\<close> for the end of a day, which the format
  allows and \<^verbatim>\<open>toISOString\<close> never writes, is not read either.
\<close>

fun readDigits :: "nat \<Rightarrow> int \<Rightarrow> string \<Rightarrow> (int \<times> string) option" where
  "readDigits 0 acc s = Some (acc, s)"
| "readDigits (Suc k) acc [] = None"
| "readDigits (Suc k) acc (c # cs) =
     (if is_digit c then readDigits k (10 * acc + (of_char c - 48)) cs else None)"

fun expect :: "char \<Rightarrow> string \<Rightarrow> string option" where
  "expect c [] = None"
| "expect c (x # xs) = (if x = c then Some xs else None)"

definition parseDateTime :: "int \<Rightarrow> nat \<Rightarrow> string \<Rightarrow> int option" where
  "parseDateTime sign n s0 = do {
     (year, s1) \<leftarrow> readDigits n 0 s0;
     s2 \<leftarrow> expect CHR ''-'' s1;
     (month, s3) \<leftarrow> readDigits 2 0 s2;
     s4 \<leftarrow> expect CHR ''-'' s3;
     (date, s5) \<leftarrow> readDigits 2 0 s4;
     s6 \<leftarrow> expect CHR ''T'' s5;
     (hour, s7) \<leftarrow> readDigits 2 0 s6;
     s8 \<leftarrow> expect CHR '':'' s7;
     (minute, s9) \<leftarrow> readDigits 2 0 s8;
     s10 \<leftarrow> expect CHR '':'' s9;
     (second, s11) \<leftarrow> readDigits 2 0 s10;
     s12 \<leftarrow> expect CHR ''.'' s11;
     (ms, s13) \<leftarrow> readDigits 3 0 s12;
     s14 \<leftarrow> expect CHR ''Z'' s13;
     let l = (if DaysInYear (sign * year) = 366 then 1 else 0);
         tv = MakeDate (MakeDay (sign * year) (month - 1) date) (MakeTime hour minute second ms)
     in if s14 = [] \<and> (sign = 1 \<or> 0 < year) \<and>
           1 \<le> month \<and> month \<le> 12 \<and> 1 \<le> date \<and> date \<le> DaysInMonth (month - 1) l \<and>
           hour \<le> 23 \<and> minute \<le> 59 \<and> second \<le> 59 \<and> time_value tv
        then Some tv else None
   }"

definition parseISOString :: "string \<Rightarrow> int option" where
  "parseISOString s =
     (case s of
        [] \<Rightarrow> None
      | c # cs \<Rightarrow>
          if c = CHR ''+'' then parseDateTime 1 6 cs
          else if c = CHR ''-'' then parseDateTime (- 1) 6 cs
          else parseDateTime 1 4 s)"

text \<open>The \<^verbatim>\<open>timestamp\<close> of the envelope a call returned, and the instant it denotes.\<close>

definition timestampOf :: "(exn + 'a object) \<times> world \<Rightarrow> string option" where
  "timestampOf r =
     (case fst r of
        Inl e \<Rightarrow> None
      | Inr obj \<Rightarrow> (case getProp obj ''timestamp'' of Some (JString ts) \<Rightarrow> Some ts | _ \<Rightarrow> None))"

definition instantOf :: "(exn + 'a object) \<times> world \<Rightarrow> int option" where
  "instantOf r = (case timestampOf r of None \<Rightarrow> None | Some ts \<Rightarrow> parseISOString ts)"

text \<open>
  Two calls returned envelopes, both timestamps denote instants, and the instant of the
  second is greater than or equal to the instant of the first.
\<close>

definition timestamps_ordered ::
    "(exn + 'a object) \<times> world \<Rightarrow> (exn + 'b object) \<times> world \<Rightarrow> bool" where
  "timestamps_ordered first second =
     (case (instantOf first, instantOf second) of
        (Some i1, Some i2) \<Rightarrow> i1 \<le> i2
      | _ \<Rightarrow> False)"

text \<open>
  Decimal digits at a fixed width, least significant digit last: what
  \<open>ToZeroPaddedDecimalString\<close> gives for a number that fits the width
  (\<open>ToZeroPaddedDecimalString_fixed\<close>).
\<close>

fun fixedDecimal :: "nat \<Rightarrow> nat \<Rightarrow> string" where
  "fixedDecimal 0 n = []"
| "fixedDecimal (Suc w) n = fixedDecimal w (n div 10) @ [digit (n mod 10)]"

text \<open>
  Clocks of worlds used below: one that runs from 2026-02-23T12:34:56.788Z, a millisecond
  for each reading, and one that is set back by a second between two readings.
\<close>

definition clock_2026 :: "nat \<Rightarrow> int" where
  "clock_2026 n = 1771850096788 + int n"

definition clock_set_back :: "nat \<Rightarrow> int" where
  "clock_set_back n = (if n = 0 then 1771850096789 else 1771850095789)"

definition world_2026 :: world where
  "world_2026 = \<lparr>clock = clock_2026, ticks = 1\<rparr>"

definition world_set_back :: world where
  "world_set_back = \<lparr>clock = clock_set_back, ticks = 0\<rparr>"

section \<open>The constructors: fields, absence, totality\<close>

lemma successResponse_result:
  "successResponse v w =
     (Inr [(''success'', JBoolean True), (''data'', JPayload v),
           (''timestamp'', JString (ISOString (clock w (ticks w))))],
      w\<lparr>ticks := Suc (ticks w)\<rparr>)"
  by (simp add: successResponse_def Date_new_def)

lemma errorResponse_result:
  "errorResponse s w =
     (Inr [(''success'', JBoolean False), (''error'', JString s),
           (''timestamp'', JString (ISOString (clock w (ticks w))))],
      w\<lparr>ticks := Suc (ticks w)\<rparr>)"
  by (simp add: errorResponse_def Date_new_def)

text \<open>
  C1: for every payload \<open>v\<close>, of any type, \<open>successResponse v\<close> returns an envelope whose
  \<^verbatim>\<open>success\<close> property is \<^verbatim>\<open>true\<close> and whose \<^verbatim>\<open>data\<close> property is the payload \<open>v\<close> itself.
\<close>

theorem successResponse_success_data:
  "\<exists>obj w'. successResponse v w = (Inr obj, w') \<and>
     getProp obj ''success'' = Some (JBoolean True) \<and>
     getProp obj ''data'' = Some (JPayload v)"
  by (simp add: successResponse_result getProp_def)

text \<open>
  C2: for every string \<open>s\<close>, the empty string included, \<open>errorResponse s\<close> returns an
  envelope whose \<^verbatim>\<open>success\<close> property is \<^verbatim>\<open>false\<close> and whose \<^verbatim>\<open>error\<close> property is \<open>s\<close>,
  unchanged.
\<close>

theorem errorResponse_success_error:
  "\<exists>(obj :: 'a object) w'. errorResponse s w = (Inr obj, w') \<and>
     getProp obj ''success'' = Some (JBoolean False) \<and>
     getProp obj ''error'' = Some (JString s)"
  by (simp add: errorResponse_result getProp_def)

text \<open>
  C3: the envelope returned by \<open>errorResponse s\<close> has no \<^verbatim>\<open>data\<close> property: the property
  is absent, not present with an empty value, and a check for its presence is false.
\<close>

theorem errorResponse_no_data:
  "\<exists>(obj :: 'a object) w'. errorResponse s w = (Inr obj, w') \<and>
     \<not> hasProperty obj ''data'' \<and> getProp obj ''data'' = None"
  by (simp add: errorResponse_result getProp_def hasProperty_def)

text \<open>
  C4: every envelope that either constructor produces satisfies the invariant: \<^verbatim>\<open>data\<close>
  is present exactly when \<^verbatim>\<open>success\<close> is true, \<^verbatim>\<open>error\<close> exactly when \<^verbatim>\<open>success\<close> is
  false, and \<^verbatim>\<open>timestamp\<close> is present in both variants.
\<close>

theorem constructors_envelope_invariant:
  "(\<exists>obj w'. successResponse v w = (Inr obj, w') \<and> envelope_invariant obj) \<and>
   (\<exists>(obj :: 'b object) w'. errorResponse s w = (Inr obj, w') \<and> envelope_invariant obj)"
  by (simp add: successResponse_result errorResponse_result envelope_invariant_def
      getProp_def hasProperty_def)

text \<open>
  C7: both constructors are total: for every payload and every string, in every world,
  the call returns an envelope and raises nothing.
\<close>

theorem constructors_total:
  "(\<exists>obj w'. successResponse v w = (Inr obj, w')) \<and>
   (\<exists>(obj :: 'b object) w'. errorResponse s w = (Inr obj, w')) \<and>
   (\<forall>e. fst (successResponse v w) \<noteq> Inl e) \<and>
   (\<forall>e. fst (errorResponse s w :: (exn + 'b object) \<times> world) \<noteq> Inl e)"
  by (simp add: successResponse_result errorResponse_result)

section \<open>The request shape\<close>

lemma getProp_omit: "getProp (omit k obj) k' = (if k' = k then None else getProp obj k')"
  by (induction obj) (auto simp: getProp_def omit_def)

lemma required_omit: "k' \<noteq> k \<Longrightarrow> required (omit k obj) k' ty = required obj k' ty"
  by (simp add: required_def getProp_omit)

lemma optional_omit: "optional obj k' ty \<Longrightarrow> optional (omit k obj) k' ty"
  by (simp add: optional_def getProp_omit)

text \<open>
  C8: an object with only the required property \<^verbatim>\<open>original\<close> is a valid \<^verbatim>\<open>ConvertRequest\<close>,
  under both declarations of the interface; \<^verbatim>\<open>filename\<close>, \<^verbatim>\<open>quality\<close> and \<^verbatim>\<open>transparentBg\<close>
  are optional, and each may be left out of a valid request.
\<close>

theorem ConvertRequest_only_original:
  "ConvertRequest_v2 [(''original'', JString s)] \<and>
   ConvertRequest [(''original'', JString s)] \<and>
   (ConvertRequest_v2 obj \<longrightarrow>
      ConvertRequest_v2 (omit ''filename'' obj) \<and>
      ConvertRequest_v2 (omit ''quality'' obj) \<and>
      ConvertRequest_v2 (omit ''transparentBg'' obj))"
proof -
  have only: "ConvertRequest_v2 [(''original'', JString s)] \<and>
      ConvertRequest [(''original'', JString s)]"
    by (simp add: ConvertRequest_v2_def ConvertRequest_def required_def optional_def
        getProp_def isString_def)
  have drop: "ConvertRequest_v2 (omit k obj)" if "ConvertRequest_v2 obj" "k \<noteq> ''original''" for k
    using that by (simp add: ConvertRequest_v2_def required_omit optional_omit)
  show ?thesis
    using only drop by simp
qed

theorem ConvertRequest_only_original_witness:
  "ConvertRequest_v2 [(''original'', JString ''aGk=''), (''quality'', JNumber 7 :: unit jsval)] \<and>
   ConvertRequest_v2
     (omit ''quality'' [(''original'', JString ''aGk=''), (''quality'', JNumber 7 :: unit jsval)]) \<and>
   omit ''quality'' [(''original'', JString ''aGk=''), (''quality'', JNumber 7 :: unit jsval)] =
     [(''original'', JString ''aGk='')]"
proof -
  let ?obj = "[(''original'', JString ''aGk=''), (''quality'', JNumber 7 :: unit jsval)]"
  have h: "ConvertRequest_v2 ?obj"
    by (simp add: ConvertRequest_v2_def required_def optional_def getProp_def
        isString_def isNumber_def)
  have e: "omit ''quality'' ?obj = [(''original'', JString ''aGk='')]"
    by (simp add: omit_def)
  show ?thesis
    using h e ConvertRequest_only_original [of "''aGk=''" ?obj]
    by blast
qed

section \<open>The two copies of the module, and determinism\<close>

text \<open>
  C9: the two copies of the module define the same constructors: for every payload,
  every string and every world (every clock), the functions of lines 43 to 57 and those of
  lines 211 to 255 return equal envelopes and leave equal worlds.
\<close>

theorem constructors_v2_equal:
  "successResponse_v2 v w = successResponse v w \<and>
   errorResponse_v2 s w = errorResponse s w"
  by (simp add: successResponse_v2_def successResponse_def
      errorResponse_v2_def errorResponse_def)

text \<open>
  C10: the constructors are deterministic up to the clock: two calls with equal payloads
  (equal strings) in worlds whose clocks give the same reading return equal envelopes,
  whatever else differs between the worlds.
\<close>

theorem constructors_deterministic:
  "clock w1 (ticks w1) = clock w2 (ticks w2) \<Longrightarrow>
     fst (successResponse v w1) = fst (successResponse v w2) \<and>
     fst (errorResponse s w1) = fst (errorResponse s w2)"
  by (simp add: successResponse_result errorResponse_result)

theorem constructors_deterministic_witness:
  "clock world_2026 (ticks world_2026) = clock world_set_back (ticks world_set_back) \<and>
   world_2026 \<noteq> world_set_back \<and>
   fst (successResponse True world_2026) = fst (successResponse True world_set_back) \<and>
   (fst (errorResponse ''fail'' world_2026) :: exn + unit object) =
     fst (errorResponse ''fail'' world_set_back)"
proof -
  have h: "clock world_2026 (ticks world_2026) = clock world_set_back (ticks world_set_back)"
    by (simp add: world_2026_def world_set_back_def clock_2026_def clock_set_back_def)
  have d: "world_2026 \<noteq> world_set_back"
    by (simp add: world_2026_def world_set_back_def)
  show ?thesis
    using h d constructors_deterministic [OF h, of True "''fail''"]
    by blast
qed

section \<open>The calendar of \<^verbatim>\<open>Date\<close>\<close>

lemma DayFromYear_bounds:
  "146097 * (y - 1970) - 506 \<le> 400 * DayFromYear y \<and>
   400 * DayFromYear y \<le> 146097 * (y - 1970) + 589"
proof -
  define a where "a = (y - 1969) div 4"
  define b where "b = (y - 1901) div 100"
  define c where "c = (y - 1601) div 400"
  have a: "4 * a \<le> y - 1969" "y - 1969 < 4 * a + 4"
    unfolding a_def by arith+
  have b: "100 * b \<le> y - 1901" "y - 1901 < 100 * b + 100"
    unfolding b_def by arith+
  have c: "400 * c \<le> y - 1601" "y - 1601 < 400 * c + 400"
    unfolding c_def by arith+
  have "DayFromYear y = 365 * (y - 1970) + a - b + c"
    by (simp add: DayFromYear_def a_def b_def c_def)
  then have "400 * DayFromYear y = 146000 * y - 287620000 + 400 * a - 400 * b + 400 * c"
    by simp
  with a b c show ?thesis
    by (simp add: algebra_simps)
qed

lemma div_succ:
  fixes x n :: int
  assumes "0 < n"
  shows "(x + 1) div n = x div n + (if (x + 1) mod n = 0 then 1 else 0)"
proof (cases "x mod n = n - 1")
  case True
  have "x = n * (x div n) + x mod n"
    by simp
  moreover have "n * (x div n + 1) = n * (x div n) + n"
    by (simp add: algebra_simps)
  ultimately have "x + 1 = n * (x div n + 1) + 0"
    using True by linarith
  then have "(x + 1) div n = x div n + 1" "(x + 1) mod n = 0"
    using assms int_div_pos_eq [of "x + 1" n "x div n + 1" 0]
      int_mod_pos_eq [of "x + 1" n "x div n + 1" 0] by simp_all
  then show ?thesis by simp
next
  case False
  have r: "0 \<le> x mod n" "x mod n < n"
    using assms by simp_all
  have "x + 1 = n * (x div n) + (x mod n + 1)"
    using mult_div_mod_eq [of n x] by simp
  moreover have "0 \<le> x mod n + 1" "x mod n + 1 < n"
    using r False by linarith+
  ultimately have "(x + 1) div n = x div n" "(x + 1) mod n = x mod n + 1"
    using int_div_pos_eq [of "x + 1" n "x div n" "x mod n + 1"]
      int_mod_pos_eq [of "x + 1" n "x div n" "x mod n + 1"] by simp_all
  then show ?thesis using r by simp
qed

lemma DayFromYear_Suc: "DayFromYear (y + 1) = DayFromYear y + DaysInYear y"
proof -
  have m4: "(y - 1968) mod 4 = y mod 4"
    using mod_mult_self1 [of y "- 492" 4] by simp
  have m100: "(y - 1900) mod 100 = y mod 100"
    using mod_mult_self1 [of y "- 19" 100] by simp
  have m400: "(y - 1600) mod 400 = y mod 400"
    using mod_mult_self1 [of y "- 4" 400] by simp
  have 4: "(y - 1968) div 4 = (y - 1969) div 4 + (if y mod 4 = 0 then 1 else 0)"
    using div_succ [of 4 "y - 1969"] m4 by simp
  have 100: "(y - 1900) div 100 = (y - 1901) div 100 + (if y mod 100 = 0 then 1 else 0)"
    using div_succ [of 100 "y - 1901"] m100 by simp
  have 400: "(y - 1600) div 400 = (y - 1601) div 400 + (if y mod 400 = 0 then 1 else 0)"
    using div_succ [of 400 "y - 1601"] m400 by simp
  have d1: "y mod 100 = 0 \<Longrightarrow> y mod 4 = 0"
    using mod_mod_cancel [of 4 100 y] by simp
  have d2: "y mod 400 = 0 \<Longrightarrow> y mod 100 = 0"
    using mod_mod_cancel [of 100 400 y] by simp
  have "DayFromYear (y + 1) =
      365 * (y - 1969) + (y - 1968) div 4 - (y - 1900) div 100 + (y - 1600) div 400"
    by (simp add: DayFromYear_def)
  then show ?thesis
    using d1 d2 by (simp add: 4 100 400 DayFromYear_def DaysInYear_def)
qed

lemma DaysInYear_cases: "DaysInYear y = 365 \<or> DaysInYear y = 366"
  by (simp add: DaysInYear_def)

lemma DayFromYear_less: "y < y' \<Longrightarrow> DayFromYear y < DayFromYear y'"
proof (induction y' rule: int_gr_induct)
  case base
  show ?case
    using DayFromYear_Suc [of y] DaysInYear_cases [of y] by linarith
next
  case (step i)
  then show ?case
    using DayFromYear_Suc [of i] DaysInYear_cases [of i] by linarith
qed

lemma DayFromYear_mono: "y \<le> y' \<Longrightarrow> DayFromYear y \<le> DayFromYear y'"
  using DayFromYear_less [of y y'] by (cases "y = y'") simp_all

lemma TimeFromYear_le_iff: "TimeFromYear y \<le> t \<longleftrightarrow> DayFromYear y \<le> Day t"
  unfolding TimeFromYear_def Day_def msPerDay_def by arith

lemma YearFromTime_day:
  "DayFromYear (YearFromTime t) \<le> Day t \<and> Day t < DayFromYear (YearFromTime t + 1)"
proof -
  define q where "q = (400 * Day t + 506) div 146097"
  have q: "146097 * q \<le> 400 * Day t + 506" "400 * Day t + 506 < 146097 * q + 146097"
    unfolding q_def by arith+
  have up: "146097 * q + 145591 \<le> 400 * DayFromYear (1970 + q + 1)"
    using DayFromYear_bounds [of "1970 + q + 1"] by (simp add: algebra_simps)
  have lo: "400 * DayFromYear (1970 + q - 1) \<le> 146097 * q - 145508"
    using DayFromYear_bounds [of "1970 + q - 1"] by (simp add: algebra_simps)
  show ?thesis
  proof (cases "DayFromYear (1970 + q) \<le> Day t")
    case True
    then have "YearFromTime t = 1970 + q"
      by (simp add: YearFromTime_def TimeFromYear_le_iff q_def)
    moreover have "Day t < DayFromYear (1970 + q + 1)"
      using q up by linarith
    ultimately show ?thesis
      using True by simp
  next
    case False
    then have "YearFromTime t = 1970 + q - 1"
      by (simp add: YearFromTime_def TimeFromYear_le_iff q_def)
    moreover have "DayFromYear (1970 + q - 1) \<le> Day t"
      using q lo by linarith
    ultimately show ?thesis
      using False by simp
  qed
qed

lemma YearFromTime_largest: "TimeFromYear y \<le> t \<longleftrightarrow> y \<le> YearFromTime t"
proof
  assume "TimeFromYear y \<le> t"
  then have "DayFromYear y < DayFromYear (YearFromTime t + 1)"
    using YearFromTime_day [of t] by (simp add: TimeFromYear_le_iff)
  then have "\<not> YearFromTime t + 1 \<le> y"
    using DayFromYear_mono [of "YearFromTime t + 1" y] by linarith
  then show "y \<le> YearFromTime t"
    by simp
next
  assume "y \<le> YearFromTime t"
  then show "TimeFromYear y \<le> t"
    using DayFromYear_mono [of y "YearFromTime t"] YearFromTime_day [of t]
    by (simp add: TimeFromYear_le_iff)
qed

lemma Day_mono: "t \<le> t' \<Longrightarrow> Day t \<le> Day t'"
  by (simp add: Day_def msPerDay_def zdiv_mono1)

lemma YearFromTime_mono: "t \<le> t' \<Longrightarrow> YearFromTime t \<le> YearFromTime t'"
proof -
  assume "t \<le> t'"
  have "TimeFromYear (YearFromTime t) \<le> t"
    by (simp add: YearFromTime_largest)
  with \<open>t \<le> t'\<close> have "TimeFromYear (YearFromTime t) \<le> t'"
    by simp
  then show ?thesis
    by (simp add: YearFromTime_largest)
qed

lemma DayWithinYear_range:
  "0 \<le> DayWithinYear t \<and> DayWithinYear t < 365 + InLeapYear t"
  using YearFromTime_day [of t] DayFromYear_Suc [of "YearFromTime t"]
    DaysInYear_cases [of "YearFromTime t"]
  by (auto simp: DayWithinYear_def InLeapYear_def)

lemma MonthFromTime_range: "0 \<le> MonthFromTime t \<and> MonthFromTime t \<le> 11"
  by (simp add: MonthFromTime_def Let_def)

lemma InLeapYear_cases: "InLeapYear t = 0 \<or> InLeapYear t = 1"
  by (simp add: InLeapYear_def)

lemma DateFromTime_range: "1 \<le> DateFromTime t \<and> DateFromTime t \<le> 31"
  using DayWithinYear_range [of t] InLeapYear_cases [of t]
  unfolding DateFromTime_def MonthFromTime_def Let_def
  by (auto split: if_splits)

section \<open>String comparison and decimal digits\<close>

lemma IsLessThan_irrefl: "\<not> IsLessThan a a"
  by (induction a) simp_all

lemma IsLessThan_append_same: "IsLessThan (a @ r') (a @ r) = IsLessThan r' r"
  by (induction a) simp_all

lemma IsLessThan_append_differ:
  "length a' = length a \<Longrightarrow> a' \<noteq> a \<Longrightarrow> IsLessThan (a' @ r') (a @ r) = IsLessThan a' a"
  by (induction a' a rule: list_induct2) auto

lemma digit_order:
  "a < 10 \<Longrightarrow> b < 10 \<Longrightarrow> ((of_char (digit a) :: nat) < of_char (digit b)) = (a < b)"
  by (simp add: digit_def)

lemma digit_inj: "a < 10 \<Longrightarrow> b < 10 \<Longrightarrow> digit a = digit b \<longleftrightarrow> a = b"
  by (simp add: digit_def)

lemma digit_is_digit: "a < 10 \<Longrightarrow> is_digit (digit a)"
  by (simp add: digit_def is_digit_def)

lemma digit_0: "digit 0 = CHR ''0''"
  by (simp add: digit_def char_of_eq_iff)

lemma length_fixedDecimal: "length (fixedDecimal w n) = w"
  by (induction w arbitrary: n) simp_all

lemma fixedDecimal_digits: "list_all is_digit (fixedDecimal w n)"
  by (induction w arbitrary: n) (simp_all add: digit_is_digit)

lemma fixedDecimal_0: "fixedDecimal w 0 = replicate w (CHR ''0'')"
  by (induction w) (simp_all add: digit_0 replicate_append_same)

lemma fixedDecimal_inj:
  "n < 10 ^ w \<Longrightarrow> m < 10 ^ w \<Longrightarrow> fixedDecimal w n = fixedDecimal w m \<Longrightarrow> n = m"
proof (induction w arbitrary: n m)
  case 0
  then show ?case by simp
next
  case (Suc w)
  have "n div 10 < 10 ^ w" "m div 10 < 10 ^ w"
    using Suc.prems by (simp_all add: less_mult_imp_div_less)
  moreover have "fixedDecimal w (n div 10) = fixedDecimal w (m div 10)"
      "digit (n mod 10) = digit (m mod 10)"
    using Suc.prems(3) by (simp_all add: length_fixedDecimal)
  ultimately have "n div 10 = m div 10" "n mod 10 = m mod 10"
    using Suc.IH by (simp_all add: digit_inj)
  then show ?case
    by (metis div_mult_mod_eq)
qed

lemma fixedDecimal_mono:
  "n \<le> m \<Longrightarrow> m < 10 ^ w \<Longrightarrow> \<not> IsLessThan (fixedDecimal w m) (fixedDecimal w n)"
proof (induction w arbitrary: n m)
  case 0
  then show ?case by simp
next
  case (Suc w)
  have lt: "n div 10 < 10 ^ w" "m div 10 < 10 ^ w"
    using Suc.prems by (simp_all add: less_mult_imp_div_less)
  have le: "n div 10 \<le> m div 10"
    using Suc.prems(1) by (simp add: div_le_mono)
  show ?case
  proof (cases "n div 10 = m div 10")
    case True
    then have "n mod 10 \<le> m mod 10"
      using Suc.prems(1) by (metis add_le_cancel_left div_mult_mod_eq)
    then show ?thesis
      using True by (auto simp: IsLessThan_append_same digit_order digit_inj)
  next
    case False
    then have "fixedDecimal w (m div 10) \<noteq> fixedDecimal w (n div 10)"
      using fixedDecimal_inj [of "m div 10" w "n div 10"] lt by auto
    then show ?thesis
      using Suc.IH [OF le lt(2)]
      by (simp add: IsLessThan_append_differ length_fixedDecimal)
  qed
qed

lemma decimal_fixed:
  "0 < w \<Longrightarrow> n < 10 ^ w \<Longrightarrow>
     length (decimal n) \<le> w \<and>
     replicate (w - length (decimal n)) (CHR ''0'') @ decimal n = fixedDecimal w n"
proof (induction w arbitrary: n)
  case 0
  then show ?case by simp
next
  case (Suc w)
  show ?case
  proof (cases "n < 10")
    case True
    then show ?thesis
      by (simp add: decimal.simps [of n] fixedDecimal_0)
  next
    case False
    then have w: "0 < w"
      using Suc.prems(2) by (cases w) simp_all
    have "n div 10 < 10 ^ w"
      using Suc.prems(2) by (simp add: less_mult_imp_div_less)
    from Suc.IH [OF w this] False show ?thesis
      by (simp add: decimal.simps [of n] Suc_diff_le)
  qed
qed

lemma ToZeroPaddedDecimalString_fixed:
  "0 < w \<Longrightarrow> n < 10 ^ w \<Longrightarrow> ToZeroPaddedDecimalString n w = fixedDecimal w n"
  by (simp add: ToZeroPaddedDecimalString_def decimal_fixed)

lemma field_step:
  assumes "n \<le> m" "m < 10 ^ w" "n = m \<Longrightarrow> \<not> IsLessThan r' r"
  shows "\<not> IsLessThan (fixedDecimal w m @ r') (fixedDecimal w n @ r)"
proof (cases "n = m")
  case True
  then show ?thesis
    using assms(3) by (simp add: IsLessThan_append_same)
next
  case False
  then have "fixedDecimal w m \<noteq> fixedDecimal w n"
    using fixedDecimal_inj [of n w m] assms by auto
  then show ?thesis
    using fixedDecimal_mono [OF assms(1,2)]
    by (simp add: IsLessThan_append_differ length_fixedDecimal)
qed

lemma matches_digits:
  "length a = length p \<Longrightarrow> list_all is_digit a \<Longrightarrow> list_all placeholder p \<Longrightarrow>
     matches (p @ ps) (a @ s) = matches ps s"
  by (induction a p rule: list_induct2) simp_all

section \<open>The fields of a time value are ordered as the time values\<close>

lemma time_decomposition:
  "t = 86400000 * Day t + 3600000 * HourFromTime t + 60000 * MinFromTime t +
       1000 * SecFromTime t + msFromTime t"
proof -
  have 1: "t = 1000 * (t div 1000) + t mod 1000"
    by simp
  have 2: "t div 1000 = 60 * (t div 60000) + (t div 1000) mod 60"
    using zdiv_zmult2_eq [of 60 t 1000] by simp
  have 3: "t div 60000 = 60 * (t div 3600000) + (t div 60000) mod 60"
    using zdiv_zmult2_eq [of 60 t 60000] by simp
  have 4: "t div 3600000 = 24 * (t div 86400000) + (t div 3600000) mod 24"
    using zdiv_zmult2_eq [of 24 t 3600000] by simp
  show ?thesis
    unfolding Day_def HourFromTime_def MinFromTime_def SecFromTime_def msFromTime_def
      msPerDay_def msPerHour_def msPerMinute_def msPerSecond_def
    using 1 2 3 4 by linarith
qed

lemma time_fields_range:
  "0 \<le> HourFromTime t \<and> HourFromTime t < 24 \<and>
   0 \<le> MinFromTime t \<and> MinFromTime t < 60 \<and>
   0 \<le> SecFromTime t \<and> SecFromTime t < 60 \<and>
   0 \<le> msFromTime t \<and> msFromTime t < 1000"
  by (simp add: HourFromTime_def MinFromTime_def SecFromTime_def msFromTime_def msPerSecond_def)

lemma time_fields_mono:
  assumes "Day t = Day t'" "t \<le> t'"
  shows "HourFromTime t \<le> HourFromTime t'"
    and "HourFromTime t = HourFromTime t' \<Longrightarrow> MinFromTime t \<le> MinFromTime t'"
    and "HourFromTime t = HourFromTime t' \<Longrightarrow> MinFromTime t = MinFromTime t' \<Longrightarrow>
           SecFromTime t \<le> SecFromTime t'"
    and "HourFromTime t = HourFromTime t' \<Longrightarrow> MinFromTime t = MinFromTime t' \<Longrightarrow>
           SecFromTime t = SecFromTime t' \<Longrightarrow> msFromTime t \<le> msFromTime t'"
  using assms time_decomposition [of t] time_decomposition [of t']
    time_fields_range [of t] time_fields_range [of t']
  by linarith+

lemma date_fields_mono:
  assumes "YearFromTime t = YearFromTime t'" "t \<le> t'"
  shows "MonthFromTime t \<le> MonthFromTime t'"
    and "MonthFromTime t = MonthFromTime t' \<Longrightarrow> DateFromTime t \<le> DateFromTime t'"
    and "MonthFromTime t = MonthFromTime t' \<Longrightarrow> DateFromTime t = DateFromTime t' \<Longrightarrow>
           Day t = Day t'"
proof -
  have l: "InLeapYear t = InLeapYear t'"
    using assms(1) by (simp add: InLeapYear_def)
  have d: "DayWithinYear t \<le> DayWithinYear t'"
    using assms Day_mono [of t t'] by (simp add: DayWithinYear_def)
  have c: "InLeapYear t' = 0 \<or> InLeapYear t' = 1"
    by (rule InLeapYear_cases)
  show "MonthFromTime t \<le> MonthFromTime t'"
    using l d unfolding MonthFromTime_def Let_def by simp
  have e: "DayWithinYear t = DayWithinYear t' \<Longrightarrow> Day t = Day t'"
    using assms(1) by (simp add: DayWithinYear_def)
  show "DateFromTime t \<le> DateFromTime t'" if "MonthFromTime t = MonthFromTime t'"
    using that l d unfolding DateFromTime_def Let_def by simp
  show "Day t = Day t'"
    if "MonthFromTime t = MonthFromTime t'" "DateFromTime t = DateFromTime t'"
    using that l e unfolding DateFromTime_def Let_def by (simp split: if_splits)
qed

section \<open>The string of a time value\<close>

lemma pad_fixed:
  fixes x :: int
  assumes "0 \<le> x" "x < 10 ^ w" "0 < w"
  shows "ToZeroPaddedDecimalString (nat x) w = fixedDecimal w (nat x)"
proof -
  have "nat x < 10 ^ w"
    using assms(1,2) by (simp add: nat_less_iff)
  then show ?thesis
    using assms(3) by (rule ToZeroPaddedDecimalString_fixed [rotated])
qed

lemma field_ranges:
  "0 \<le> MonthFromTime t + 1 \<and> MonthFromTime t + 1 < 10 ^ 2 \<and>
   0 \<le> DateFromTime t \<and> DateFromTime t < 10 ^ 2 \<and>
   0 \<le> HourFromTime t \<and> HourFromTime t < 10 ^ 2 \<and>
   0 \<le> MinFromTime t \<and> MinFromTime t < 10 ^ 2 \<and>
   0 \<le> SecFromTime t \<and> SecFromTime t < 10 ^ 2 \<and>
   0 \<le> msFromTime t \<and> msFromTime t < 10 ^ 3"
  using MonthFromTime_range [of t] DateFromTime_range [of t] time_fields_range [of t]
  by simp

lemma ISOString_fixed:
  assumes "fourDigitYear t"
  shows "ISOString t =
     fixedDecimal 4 (nat (YearFromTime t)) @ ''-'' @
     fixedDecimal 2 (nat (MonthFromTime t + 1)) @ ''-'' @
     fixedDecimal 2 (nat (DateFromTime t)) @ ''T'' @
     fixedDecimal 2 (nat (HourFromTime t)) @ '':'' @
     fixedDecimal 2 (nat (MinFromTime t)) @ '':'' @
     fixedDecimal 2 (nat (SecFromTime t)) @ ''.'' @
     fixedDecimal 3 (nat (msFromTime t)) @ ''Z''"
proof -
  note r = field_ranges [of t]
  have "0 \<le> YearFromTime t" "YearFromTime t < 10 ^ 4"
    using assms by (simp_all add: fourDigitYear_def)
  then have "ToZeroPaddedDecimalString (nat (YearFromTime t)) 4 =
      fixedDecimal 4 (nat (YearFromTime t))"
    by (simp only: pad_fixed zero_less_numeral)
  then have y: "yearString (YearFromTime t) = fixedDecimal 4 (nat (YearFromTime t))"
    using assms by (simp add: yearString_def fourDigitYear_def)
  have m: "ToZeroPaddedDecimalString (nat (MonthFromTime t + 1)) 2 =
      fixedDecimal 2 (nat (MonthFromTime t + 1))"
    using r by (simp only: pad_fixed zero_less_numeral)
  have d: "ToZeroPaddedDecimalString (nat (DateFromTime t)) 2 = fixedDecimal 2 (nat (DateFromTime t))"
    using r by (simp only: pad_fixed zero_less_numeral)
  have h: "ToZeroPaddedDecimalString (nat (HourFromTime t)) 2 = fixedDecimal 2 (nat (HourFromTime t))"
    using r by (simp only: pad_fixed zero_less_numeral)
  have mi: "ToZeroPaddedDecimalString (nat (MinFromTime t)) 2 = fixedDecimal 2 (nat (MinFromTime t))"
    using r by (simp only: pad_fixed zero_less_numeral)
  have s: "ToZeroPaddedDecimalString (nat (SecFromTime t)) 2 = fixedDecimal 2 (nat (SecFromTime t))"
    using r by (simp only: pad_fixed zero_less_numeral)
  have ms: "ToZeroPaddedDecimalString (nat (msFromTime t)) 3 = fixedDecimal 3 (nat (msFromTime t))"
    using r by (simp only: pad_fixed zero_less_numeral)
  show ?thesis
    unfolding ISOString_def y m d h mi s ms ..
qed

lemma ISOString_iso_form: "fourDigitYear t \<Longrightarrow> iso_form (ISOString t)"
proof -
  assume y: "fourDigitYear t"
  have sep: "matches (''-'' @ ps) (''-'' @ s) = matches ps s"
      "matches (''T'' @ ps) (''T'' @ s) = matches ps s"
      "matches ('':'' @ ps) ('':'' @ s) = matches ps s"
      "matches (''.'' @ ps) (''.'' @ s) = matches ps s" for ps s
    by (simp_all add: placeholder_def)
  have z: "matches ''Z'' ''Z''"
    by (simp add: placeholder_def)
  have pl: "list_all placeholder ''YYYY''" "list_all placeholder ''MM''"
      "list_all placeholder ''DD''" "list_all placeholder ''HH''" "list_all placeholder ''mm''"
      "list_all placeholder ''ss''" "list_all placeholder ''sss''"
    by (simp_all add: placeholder_def)
  have len: "length ''YYYY'' = 4" "length ''MM'' = 2" "length ''DD'' = 2" "length ''HH'' = 2"
      "length ''mm'' = 2" "length ''ss'' = 2" "length ''sss'' = 3"
    by simp_all
  have "matches
      (''YYYY'' @ ''-'' @ ''MM'' @ ''-'' @ ''DD'' @ ''T'' @ ''HH'' @ '':'' @ ''mm'' @ '':'' @
         ''ss'' @ ''.'' @ ''sss'' @ ''Z'')
      (fixedDecimal 4 (nat (YearFromTime t)) @ ''-'' @
         fixedDecimal 2 (nat (MonthFromTime t + 1)) @ ''-'' @
         fixedDecimal 2 (nat (DateFromTime t)) @ ''T'' @
         fixedDecimal 2 (nat (HourFromTime t)) @ '':'' @
         fixedDecimal 2 (nat (MinFromTime t)) @ '':'' @
         fixedDecimal 2 (nat (SecFromTime t)) @ ''.'' @
         fixedDecimal 3 (nat (msFromTime t)) @ ''Z'')"
    by (simp only: matches_digits len length_fixedDecimal fixedDecimal_digits pl sep z)
  then show ?thesis
    unfolding iso_form_def ISOString_fixed [OF y] by simp
qed

text \<open>
  Within the years 0000 to 9999 the comparison of the strings agrees with the order of the
  instants.
\<close>

lemma ISOString_mono:
  assumes "t \<le> t'" "fourDigitYear t" "fourDigitYear t'"
  shows "string_ge (ISOString t') (ISOString t)"
proof -
  let ?ms = "\<lambda>t. fixedDecimal 3 (nat (msFromTime t)) @ ''Z''"
  let ?s = "\<lambda>t. fixedDecimal 2 (nat (SecFromTime t)) @ ''.'' @ ?ms t"
  let ?mi = "\<lambda>t. fixedDecimal 2 (nat (MinFromTime t)) @ '':'' @ ?s t"
  let ?h = "\<lambda>t. fixedDecimal 2 (nat (HourFromTime t)) @ '':'' @ ?mi t"
  let ?d = "\<lambda>t. fixedDecimal 2 (nat (DateFromTime t)) @ ''T'' @ ?h t"
  let ?m = "\<lambda>t. fixedDecimal 2 (nat (MonthFromTime t + 1)) @ ''-'' @ ?d t"
  let ?y = "\<lambda>t. fixedDecimal 4 (nat (YearFromTime t)) @ ''-'' @ ?m t"
  note r = field_ranges [of t] field_ranges [of t']
  note f = time_fields_mono [of t t'] date_fields_mono [of t t', OF _ assms(1)]
  have Y: "nat (YearFromTime t) \<le> nat (YearFromTime t')" "nat (YearFromTime t') < 10 ^ 4"
    using YearFromTime_mono [OF assms(1)] assms(3)
    by (simp_all add: fourDigitYear_def nat_mono nat_less_iff)
  have Yeq: "YearFromTime t = YearFromTime t'" if "nat (YearFromTime t) = nat (YearFromTime t')"
    using that assms(2,3) by (simp add: fourDigitYear_def eq_nat_nat_iff)
  have M: "nat (MonthFromTime t' + 1) < 10 ^ 2" "nat (DateFromTime t') < 10 ^ 2"
    using r by (simp_all add: nat_less_iff)
  have T: "nat (HourFromTime t') < 10 ^ 2" "nat (MinFromTime t') < 10 ^ 2"
      "nat (SecFromTime t') < 10 ^ 2" "nat (msFromTime t') < 10 ^ 3"
    using r by (simp_all add: nat_less_iff)
  have "\<not> IsLessThan (?y t') (?y t)"
  proof (rule field_step [OF Y])
    assume "nat (YearFromTime t) = nat (YearFromTime t')"
    note y = Yeq [OF this]
    have "\<not> IsLessThan (?m t') (?m t)"
    proof (rule field_step [OF _ M(1)])
      show "nat (MonthFromTime t + 1) \<le> nat (MonthFromTime t' + 1)"
        using f(5) [OF y] by simp
      assume "nat (MonthFromTime t + 1) = nat (MonthFromTime t' + 1)"
      then have m: "MonthFromTime t = MonthFromTime t'"
        using r by (simp add: eq_nat_nat_iff)
      have "\<not> IsLessThan (?d t') (?d t)"
      proof (rule field_step [OF _ M(2)])
        show "nat (DateFromTime t) \<le> nat (DateFromTime t')"
          using f(6) [OF y m] by simp
        assume "nat (DateFromTime t) = nat (DateFromTime t')"
        then have d: "DateFromTime t = DateFromTime t'"
          using r by (simp add: eq_nat_nat_iff)
        note day = f(7) [OF y m d]
        have "\<not> IsLessThan (?h t') (?h t)"
        proof (rule field_step [OF _ T(1)])
          show "nat (HourFromTime t) \<le> nat (HourFromTime t')"
            using f(1) [OF day assms(1)] by simp
          assume "nat (HourFromTime t) = nat (HourFromTime t')"
          then have h: "HourFromTime t = HourFromTime t'"
            using r by (simp add: eq_nat_nat_iff)
          have "\<not> IsLessThan (?mi t') (?mi t)"
          proof (rule field_step [OF _ T(2)])
            show "nat (MinFromTime t) \<le> nat (MinFromTime t')"
              using f(2) [OF day assms(1) h] by simp
            assume "nat (MinFromTime t) = nat (MinFromTime t')"
            then have mi: "MinFromTime t = MinFromTime t'"
              using r by (simp add: eq_nat_nat_iff)
            have "\<not> IsLessThan (?s t') (?s t)"
            proof (rule field_step [OF _ T(3)])
              show "nat (SecFromTime t) \<le> nat (SecFromTime t')"
                using f(3) [OF day assms(1) h mi] by simp
              assume "nat (SecFromTime t) = nat (SecFromTime t')"
              then have s: "SecFromTime t = SecFromTime t'"
                using r by (simp add: eq_nat_nat_iff)
              have "\<not> IsLessThan (?ms t') (?ms t)"
              proof (rule field_step [OF _ T(4)])
                show "nat (msFromTime t) \<le> nat (msFromTime t')"
                  using f(4) [OF day assms(1) h mi s] by simp
                show "\<not> IsLessThan ''Z'' ''Z''"
                  by simp
              qed
              then show "\<not> IsLessThan (''.'' @ ?ms t') (''.'' @ ?ms t)"
                by simp
            qed
            then show "\<not> IsLessThan ('':'' @ ?s t') ('':'' @ ?s t)"
              by simp
          qed
          then show "\<not> IsLessThan ('':'' @ ?mi t') ('':'' @ ?mi t)"
            by simp
        qed
        then show "\<not> IsLessThan (''T'' @ ?h t') (''T'' @ ?h t)"
          by simp
      qed
      then show "\<not> IsLessThan (''-'' @ ?d t') (''-'' @ ?d t)"
        by simp
    qed
    then show "\<not> IsLessThan (''-'' @ ?m t') (''-'' @ ?m t)"
      by simp
  qed
  then show ?thesis
    by (simp add: string_ge_def ISOString_fixed [OF assms(2)] ISOString_fixed [OF assms(3)])
qed

section \<open>Timestamps of given instants\<close>

lemma digit_chars:
  "digit 0 = CHR ''0''" "digit 1 = CHR ''1''" "digit 2 = CHR ''2''" "digit 3 = CHR ''3''"
  "digit 4 = CHR ''4''" "digit 5 = CHR ''5''" "digit 6 = CHR ''6''" "digit 7 = CHR ''7''"
  "digit 8 = CHR ''8''" "digit 9 = CHR ''9''" "digit (Suc 0) = CHR ''1''"
  by (simp_all add: digit_def char_of_eq_iff)

lemma fixedDecimal_widths:
  "fixedDecimal 2 n = [digit (n div 10 mod 10), digit (n mod 10)]"
  "fixedDecimal 3 n = [digit (n div 100 mod 10), digit (n div 10 mod 10), digit (n mod 10)]"
  "fixedDecimal 4 n =
     [digit (n div 1000 mod 10), digit (n div 100 mod 10), digit (n div 10 mod 10),
      digit (n mod 10)]"
  "fixedDecimal 6 n =
     [digit (n div 100000 mod 10), digit (n div 10000 mod 10), digit (n div 1000 mod 10),
      digit (n div 100 mod 10), digit (n div 10 mod 10), digit (n mod 10)]"
proof -
  have w: "(2::nat) = Suc (Suc 0)" "(3::nat) = Suc (Suc (Suc 0))"
      "(4::nat) = Suc (Suc (Suc (Suc 0)))" "(6::nat) = Suc (Suc (Suc (Suc (Suc (Suc 0)))))"
    by simp_all
  show "fixedDecimal 2 n = [digit (n div 10 mod 10), digit (n mod 10)]"
    unfolding w by (simp add: div_mult2_eq [symmetric])
  show "fixedDecimal 3 n = [digit (n div 100 mod 10), digit (n div 10 mod 10), digit (n mod 10)]"
    unfolding w by (simp add: div_mult2_eq [symmetric])
  show "fixedDecimal 4 n =
     [digit (n div 1000 mod 10), digit (n div 100 mod 10), digit (n div 10 mod 10),
      digit (n mod 10)]"
    unfolding w by (simp add: div_mult2_eq [symmetric])
  show "fixedDecimal 6 n =
     [digit (n div 100000 mod 10), digit (n div 10000 mod 10), digit (n div 1000 mod 10),
      digit (n div 100 mod 10), digit (n div 10 mod 10), digit (n mod 10)]"
    unfolding w by (simp add: div_mult2_eq [symmetric])
qed

lemma fourDigitYear_iff:
  "fourDigitYear tv \<longleftrightarrow> - 62167219200000 \<le> tv \<and> tv < 253402300800000"
proof -
  have 0: "TimeFromYear 0 = - 62167219200000"
    by (simp add: TimeFromYear_def DayFromYear_def msPerDay_def)
  have 1: "TimeFromYear 10000 = 253402300800000"
    by (simp add: TimeFromYear_def DayFromYear_def msPerDay_def)
  have "0 \<le> YearFromTime tv \<longleftrightarrow> - 62167219200000 \<le> tv"
    using YearFromTime_largest [of 0 tv] by (simp add: 0)
  moreover have "YearFromTime tv \<le> 9999 \<longleftrightarrow> tv < 253402300800000"
    using YearFromTime_largest [of 10000 tv] by (simp add: 1) linarith
  ultimately show ?thesis
    by (simp add: fourDigitYear_def)
qed

lemma YearFromTime_time_value:
  assumes "- 8640000000000000 \<le> tv" "tv \<le> 8640000000000000"
  shows "- 271821 \<le> YearFromTime tv \<and> YearFromTime tv \<le> 275760"
proof -
  have lo: "TimeFromYear (- 271821) = - 8640009417600000"
    by (simp add: TimeFromYear_def DayFromYear_def msPerDay_def)
  have hi: "TimeFromYear 275761 = 8640009504000000"
    by (simp add: TimeFromYear_def DayFromYear_def msPerDay_def)
  have "- 271821 \<le> YearFromTime tv"
    using YearFromTime_largest [of "- 271821" tv] assms(1) by (simp add: lo)
  moreover have "\<not> 275761 \<le> YearFromTime tv"
    using YearFromTime_largest [of 275761 tv] assms(2) by (simp add: hi)
  ultimately show ?thesis
    by simp
qed

text \<open>
  The last millisecond of the year 9999 and the first of the year 10000, where the
  expanded year begins.
\<close>

lemma ISOString_y10k: "ISOString 253402300800000 = ''+010000-01-01T00:00:00.000Z''"
proof -
  have y: "YearFromTime 253402300800000 = 10000"
    by (simp add: YearFromTime_def Day_def TimeFromYear_def DayFromYear_def msPerDay_def)
  have d: "DayWithinYear 253402300800000 = 0"
    by (simp add: DayWithinYear_def y Day_def DayFromYear_def msPerDay_def)
  have m: "MonthFromTime 253402300800000 = 0"
    by (simp add: MonthFromTime_def d)
  have dt: "DateFromTime 253402300800000 = 1"
    by (simp add: DateFromTime_def m d)
  have t: "HourFromTime 253402300800000 = 0" "MinFromTime 253402300800000 = 0"
      "SecFromTime 253402300800000 = 0" "msFromTime 253402300800000 = 0"
    by (simp_all add: HourFromTime_def MinFromTime_def SecFromTime_def msFromTime_def
        msPerHour_def msPerMinute_def msPerSecond_def)
  show ?thesis
    by (simp add: ISOString_def yearString_def y m dt t ToZeroPaddedDecimalString_fixed
        fixedDecimal_widths digit_chars)
qed

lemma ISOString_9999: "ISOString 253402300799999 = ''9999-12-31T23:59:59.999Z''"
proof -
  have y: "YearFromTime 253402300799999 = 9999"
    by (simp add: YearFromTime_def Day_def TimeFromYear_def DayFromYear_def msPerDay_def)
  have d: "DayWithinYear 253402300799999 = 364"
    by (simp add: DayWithinYear_def y Day_def DayFromYear_def msPerDay_def)
  have l: "InLeapYear 253402300799999 = 0"
    by (simp add: InLeapYear_def y DaysInYear_def)
  have m: "MonthFromTime 253402300799999 = 11"
    by (simp add: MonthFromTime_def d l)
  have dt: "DateFromTime 253402300799999 = 31"
    by (simp add: DateFromTime_def m d l)
  have t: "HourFromTime 253402300799999 = 23" "MinFromTime 253402300799999 = 59"
      "SecFromTime 253402300799999 = 59" "msFromTime 253402300799999 = 999"
    by (simp_all add: HourFromTime_def MinFromTime_def SecFromTime_def msFromTime_def
        msPerHour_def msPerMinute_def msPerSecond_def)
  show ?thesis
    by (simp add: ISOString_def yearString_def y m dt t ToZeroPaddedDecimalString_fixed
        fixedDecimal_widths digit_chars)
qed

lemma ISOString_2026: "ISOString 1771850096789 = ''2026-02-23T12:34:56.789Z''"
proof -
  have y: "YearFromTime 1771850096789 = 2026"
    by (simp add: YearFromTime_def Day_def TimeFromYear_def DayFromYear_def msPerDay_def)
  have d: "DayWithinYear 1771850096789 = 53"
    by (simp add: DayWithinYear_def y Day_def DayFromYear_def msPerDay_def)
  have l: "InLeapYear 1771850096789 = 0"
    by (simp add: InLeapYear_def y DaysInYear_def)
  have m: "MonthFromTime 1771850096789 = 1"
    by (simp add: MonthFromTime_def d l)
  have dt: "DateFromTime 1771850096789 = 23"
    by (simp add: DateFromTime_def m d l)
  have t: "HourFromTime 1771850096789 = 12" "MinFromTime 1771850096789 = 34"
      "SecFromTime 1771850096789 = 56" "msFromTime 1771850096789 = 789"
    by (simp_all add: HourFromTime_def MinFromTime_def SecFromTime_def msFromTime_def
        msPerHour_def msPerMinute_def msPerSecond_def)
  show ?thesis
    by (simp add: ISOString_def yearString_def y m dt t ToZeroPaddedDecimalString_fixed
        fixedDecimal_widths digit_chars)
qed

lemma ISOString_2026_next: "ISOString 1771850096790 = ''2026-02-23T12:34:56.790Z''"
proof -
  have y: "YearFromTime 1771850096790 = 2026"
    by (simp add: YearFromTime_def Day_def TimeFromYear_def DayFromYear_def msPerDay_def)
  have d: "DayWithinYear 1771850096790 = 53"
    by (simp add: DayWithinYear_def y Day_def DayFromYear_def msPerDay_def)
  have l: "InLeapYear 1771850096790 = 0"
    by (simp add: InLeapYear_def y DaysInYear_def)
  have m: "MonthFromTime 1771850096790 = 1"
    by (simp add: MonthFromTime_def d l)
  have dt: "DateFromTime 1771850096790 = 23"
    by (simp add: DateFromTime_def m d l)
  have t: "HourFromTime 1771850096790 = 12" "MinFromTime 1771850096790 = 34"
      "SecFromTime 1771850096790 = 56" "msFromTime 1771850096790 = 790"
    by (simp_all add: HourFromTime_def MinFromTime_def SecFromTime_def msFromTime_def
        msPerHour_def msPerMinute_def msPerSecond_def)
  show ?thesis
    by (simp add: ISOString_def yearString_def y m dt t ToZeroPaddedDecimalString_fixed
        fixedDecimal_widths digit_chars)
qed

section \<open>Reading a timestamp back\<close>

lemma is_digit_not_sign: "is_digit c \<Longrightarrow> c \<noteq> CHR ''+'' \<and> c \<noteq> CHR ''-''"
  by (auto simp: is_digit_def)

lemma digit_value: "k < 10 \<Longrightarrow> (of_char (digit k) :: int) = 48 + int k"
proof -
  assume "k < 10"
  then have "(of_char (digit k) :: nat) = 48 + k"
    by (simp add: digit_def)
  then have "int (of_char (digit k)) = 48 + int k"
    by simp
  then show ?thesis
    by (simp only: of_nat_of_char)
qed

lemma readDigits_digits:
  "list_all is_digit ds \<Longrightarrow>
     readDigits (length ds) acc (ds @ r) =
       Some (foldl (\<lambda>a c. 10 * a + (of_char c - 48)) acc ds, r)"
  by (induction ds arbitrary: acc) simp_all

lemma fixedDecimal_value:
  "n < 10 ^ w \<Longrightarrow>
     foldl (\<lambda>a c. 10 * a + (of_char c - 48)) acc (fixedDecimal w n) = acc * 10 ^ w + int n"
proof (induction w arbitrary: n)
  case 0
  then show ?case by simp
next
  case (Suc w)
  have "n div 10 < 10 ^ w"
    using Suc.prems by (simp add: less_mult_imp_div_less)
  then have "foldl (\<lambda>a c. 10 * a + (of_char c - 48)) acc (fixedDecimal w (n div 10)) =
      acc * 10 ^ w + int (n div 10)"
    by (rule Suc.IH)
  moreover have "int n = 10 * int (n div 10) + int (n mod 10)"
    by (simp add: of_nat_div of_nat_mod)
  ultimately show ?case
    by (simp add: digit_value algebra_simps)
qed

lemma readDigits_fixed:
  "n < 10 ^ w \<Longrightarrow> readDigits w 0 (fixedDecimal w n @ r) = Some (int n, r)"
  using readDigits_digits [of "fixedDecimal w n" 0 r]
  by (simp add: fixedDecimal_digits length_fixedDecimal fixedDecimal_value)

lemma month_date:
  "DayFromMonth (MonthFromTime t) (InLeapYear t) + DateFromTime t - 1 = DayWithinYear t"
  unfolding DayFromMonth_def DateFromTime_def MonthFromTime_def Let_def
  by simp

lemma DateFromTime_DaysInMonth:
  "DateFromTime t \<le> DaysInMonth (MonthFromTime t) (InLeapYear t)"
  using DayWithinYear_range [of t] InLeapYear_cases [of t]
  unfolding DaysInMonth_def DateFromTime_def MonthFromTime_def Let_def
  by (auto split: if_splits)

lemma MakeDay_fields:
  "MakeDay (YearFromTime t) (MonthFromTime t) (DateFromTime t) = Day t"
proof -
  have "MonthFromTime t div 12 = 0" "MonthFromTime t mod 12 = MonthFromTime t"
    using MonthFromTime_range [of t] by simp_all
  then show ?thesis
    using month_date [of t]
    by (simp add: MakeDay_def Let_def InLeapYear_def DayWithinYear_def)
qed

lemma MakeDate_fields:
  "MakeDate (MakeDay (YearFromTime t) (MonthFromTime t) (DateFromTime t))
     (MakeTime (HourFromTime t) (MinFromTime t) (SecFromTime t) (msFromTime t)) = t"
  using time_decomposition [of t]
  by (simp add: MakeDay_fields MakeDate_def MakeTime_def msPerDay_def msPerHour_def
      msPerMinute_def msPerSecond_def)

lemma MakeDay_first_of_month:
  assumes "0 \<le> mn" "mn \<le> 11"
  shows "YearFromTime (MakeDate (MakeDay y mn 1) 0) = y \<and>
     MonthFromTime (MakeDate (MakeDay y mn 1) 0) = mn \<and>
     DateFromTime (MakeDate (MakeDay y mn 1) 0) = 1"
proof -
  define t where "t = MakeDate (MakeDay y mn 1) 0"
  define l :: int where "l = (if DaysInYear y = 366 then 1 else 0)"
  have mn: "mn div 12 = 0" "mn mod 12 = mn"
    using assms(1,2) by simp_all
  have day: "Day t = DayFromYear y + DayFromMonth mn l"
    by (simp add: t_def MakeDate_def MakeDay_def Let_def mn l_def Day_def msPerDay_def)
  have m: "0 \<le> DayFromMonth mn l" "DayFromMonth mn l < DaysInYear y"
    using DaysInYear_cases [of y] by (auto simp: DayFromMonth_def l_def)
  have "y \<le> YearFromTime t"
    using m(1) by (simp add: YearFromTime_largest [symmetric] TimeFromYear_le_iff day)
  moreover have "\<not> y + 1 \<le> YearFromTime t"
    using m(2) by (simp add: YearFromTime_largest [symmetric] TimeFromYear_le_iff day DayFromYear_Suc)
  ultimately have y: "YearFromTime t = y"
    by simp
  have d: "DayWithinYear t = DayFromMonth mn l" "InLeapYear t = l"
    by (simp_all add: DayWithinYear_def InLeapYear_def y day l_def)
  have l: "l = 0 \<or> l = 1"
    by (simp add: l_def)
  have e: "mn = 0 \<or> mn = 1 \<or> mn = 2 \<or> mn = 3 \<or> mn = 4 \<or> mn = 5 \<or> mn = 6 \<or> mn = 7 \<or>
      mn = 8 \<or> mn = 9 \<or> mn = 10 \<or> mn = 11"
    using assms by arith
  have "MonthFromTime t = mn"
    using e l unfolding MonthFromTime_def Let_def d DayFromMonth_def
    by (elim disjE) simp_all
  moreover from this have "DateFromTime t = 1"
    using e l unfolding DateFromTime_def Let_def d DayFromMonth_def
    by (elim disjE) simp_all
  ultimately show ?thesis
    using y by (simp add: t_def)
qed

lemma ISOString_expanded:
  assumes "time_value t" "\<not> fourDigitYear t"
  shows "ISOString t =
     (if YearFromTime t < 0 then ''-'' else ''+'') @
     fixedDecimal 6 (nat \<bar>YearFromTime t\<bar>) @ ''-'' @
     fixedDecimal 2 (nat (MonthFromTime t + 1)) @ ''-'' @
     fixedDecimal 2 (nat (DateFromTime t)) @ ''T'' @
     fixedDecimal 2 (nat (HourFromTime t)) @ '':'' @
     fixedDecimal 2 (nat (MinFromTime t)) @ '':'' @
     fixedDecimal 2 (nat (SecFromTime t)) @ ''.'' @
     fixedDecimal 3 (nat (msFromTime t)) @ ''Z''"
proof -
  note r = field_ranges [of t]
  have "\<bar>YearFromTime t\<bar> < 1000000"
    using YearFromTime_time_value [of t] assms(1) unfolding time_value_def by linarith
  then have "0 \<le> \<bar>YearFromTime t\<bar>" "\<bar>YearFromTime t\<bar> < 10 ^ 6"
    by simp_all
  then have "ToZeroPaddedDecimalString (nat \<bar>YearFromTime t\<bar>) 6 =
      fixedDecimal 6 (nat \<bar>YearFromTime t\<bar>)"
    by (simp only: pad_fixed zero_less_numeral)
  then have y: "yearString (YearFromTime t) =
      (if YearFromTime t < 0 then ''-'' else ''+'') @ fixedDecimal 6 (nat \<bar>YearFromTime t\<bar>)"
    using assms(2) by (auto simp: yearString_def fourDigitYear_def)
  have m: "ToZeroPaddedDecimalString (nat (MonthFromTime t + 1)) 2 =
      fixedDecimal 2 (nat (MonthFromTime t + 1))"
    using r by (simp only: pad_fixed zero_less_numeral)
  have d: "ToZeroPaddedDecimalString (nat (DateFromTime t)) 2 = fixedDecimal 2 (nat (DateFromTime t))"
    using r by (simp only: pad_fixed zero_less_numeral)
  have h: "ToZeroPaddedDecimalString (nat (HourFromTime t)) 2 = fixedDecimal 2 (nat (HourFromTime t))"
    using r by (simp only: pad_fixed zero_less_numeral)
  have mi: "ToZeroPaddedDecimalString (nat (MinFromTime t)) 2 = fixedDecimal 2 (nat (MinFromTime t))"
    using r by (simp only: pad_fixed zero_less_numeral)
  have s: "ToZeroPaddedDecimalString (nat (SecFromTime t)) 2 = fixedDecimal 2 (nat (SecFromTime t))"
    using r by (simp only: pad_fixed zero_less_numeral)
  have ms: "ToZeroPaddedDecimalString (nat (msFromTime t)) 3 = fixedDecimal 3 (nat (msFromTime t))"
    using r by (simp only: pad_fixed zero_less_numeral)
  show ?thesis
    unfolding ISOString_def y m d h mi s ms by simp
qed

lemma parseDateTime_fields:
  assumes "time_value t" "sign * int y = YearFromTime t" "y < 10 ^ n" "sign = 1 \<or> 0 < y"
  shows "parseDateTime sign n
     (fixedDecimal n y @ ''-'' @
      fixedDecimal 2 (nat (MonthFromTime t + 1)) @ ''-'' @
      fixedDecimal 2 (nat (DateFromTime t)) @ ''T'' @
      fixedDecimal 2 (nat (HourFromTime t)) @ '':'' @
      fixedDecimal 2 (nat (MinFromTime t)) @ '':'' @
      fixedDecimal 2 (nat (SecFromTime t)) @ ''.'' @
      fixedDecimal 3 (nat (msFromTime t)) @ ''Z'') = Some t"
proof -
  note r = field_ranges [of t]
  have b: "nat (MonthFromTime t + 1) < 10 ^ 2" "nat (DateFromTime t) < 10 ^ 2"
      "nat (HourFromTime t) < 10 ^ 2" "nat (MinFromTime t) < 10 ^ 2"
      "nat (SecFromTime t) < 10 ^ 2" "nat (msFromTime t) < 10 ^ 3"
    using r by (simp_all add: nat_less_iff)
  have v: "int (nat (MonthFromTime t + 1)) = MonthFromTime t + 1"
      "int (nat (DateFromTime t)) = DateFromTime t"
      "int (nat (HourFromTime t)) = HourFromTime t"
      "int (nat (MinFromTime t)) = MinFromTime t"
      "int (nat (SecFromTime t)) = SecFromTime t"
      "int (nat (msFromTime t)) = msFromTime t"
    using r by simp_all
  have c: "1 \<le> DateFromTime t" "DateFromTime t \<le> DaysInMonth (MonthFromTime t) (InLeapYear t)"
      "0 \<le> MonthFromTime t" "MonthFromTime t \<le> 11"
      "HourFromTime t \<le> 23" "MinFromTime t \<le> 59" "SecFromTime t \<le> 59"
      "0 \<le> HourFromTime t" "0 \<le> MinFromTime t" "0 \<le> SecFromTime t" "0 \<le> msFromTime t"
      "0 \<le> DateFromTime t"
    using DateFromTime_range [of t] DateFromTime_DaysInMonth [of t] MonthFromTime_range [of t]
      time_fields_range [of t] by simp_all
  show ?thesis
    using assms(1,4) c
    by (simp add: parseDateTime_def Let_def readDigits_fixed [OF assms(3)] readDigits_fixed [OF b(1)]
        readDigits_fixed [OF b(2)] readDigits_fixed [OF b(3)] readDigits_fixed [OF b(4)]
        readDigits_fixed [OF b(5)] readDigits_fixed [OF b(6)] v assms(2) MakeDate_fields
        InLeapYear_def [symmetric])
qed

lemma fixedDecimal_4_head:
  "\<exists>c cs. fixedDecimal 4 n = c # cs \<and> is_digit c"
  by (simp add: fixedDecimal_widths digit_is_digit)

lemma fourDigitYear_time_value: "fourDigitYear t \<Longrightarrow> time_value t"
  by (simp add: fourDigitYear_iff time_value_def)

lemma parseISOString_ISOString:
  assumes "time_value t"
  shows "parseISOString (ISOString t) = Some t"
proof (cases "fourDigitYear t")
  case True
  let ?rest = "''-'' @
      fixedDecimal 2 (nat (MonthFromTime t + 1)) @ ''-'' @
      fixedDecimal 2 (nat (DateFromTime t)) @ ''T'' @
      fixedDecimal 2 (nat (HourFromTime t)) @ '':'' @
      fixedDecimal 2 (nat (MinFromTime t)) @ '':'' @
      fixedDecimal 2 (nat (SecFromTime t)) @ ''.'' @
      fixedDecimal 3 (nat (msFromTime t)) @ ''Z''"
  have y: "1 * int (nat (YearFromTime t)) = YearFromTime t" "nat (YearFromTime t) < 10 ^ 4"
    using True by (simp_all add: fourDigitYear_def nat_less_iff)
  obtain c cs where c: "fixedDecimal 4 (nat (YearFromTime t)) = c # cs" "is_digit c"
    using fixedDecimal_4_head by blast
  have "parseISOString (fixedDecimal 4 (nat (YearFromTime t)) @ ?rest) =
      parseDateTime 1 4 (fixedDecimal 4 (nat (YearFromTime t)) @ ?rest)"
    using is_digit_not_sign [OF c(2)] by (simp add: parseISOString_def c(1))
  also have "\<dots> = Some t"
    using assms y by (rule parseDateTime_fields) simp
  finally show ?thesis
    by (simp only: ISOString_fixed [OF True])
next
  case False
  let ?rest = "fixedDecimal 6 (nat \<bar>YearFromTime t\<bar>) @ ''-'' @
      fixedDecimal 2 (nat (MonthFromTime t + 1)) @ ''-'' @
      fixedDecimal 2 (nat (DateFromTime t)) @ ''T'' @
      fixedDecimal 2 (nat (HourFromTime t)) @ '':'' @
      fixedDecimal 2 (nat (MinFromTime t)) @ '':'' @
      fixedDecimal 2 (nat (SecFromTime t)) @ ''.'' @
      fixedDecimal 3 (nat (msFromTime t)) @ ''Z''"
  have b: "nat \<bar>YearFromTime t\<bar> < 10 ^ 6"
    using YearFromTime_time_value [of t] assms unfolding time_value_def
    by (simp add: nat_less_iff) linarith
  show ?thesis
  proof (cases "YearFromTime t < 0")
    case True
    have "parseDateTime (- 1) 6 ?rest = Some t"
      using assms _ b
    proof (rule parseDateTime_fields)
      show "- 1 * int (nat \<bar>YearFromTime t\<bar>) = YearFromTime t"
        using True by simp
      show "- 1 = (1::int) \<or> 0 < nat \<bar>YearFromTime t\<bar>"
        using True by simp
    qed
    then show ?thesis
      using True by (simp add: ISOString_expanded [OF assms False] parseISOString_def)
  next
    case nonneg: False
    have "parseDateTime 1 6 ?rest = Some t"
      using assms _ b
    proof (rule parseDateTime_fields)
      show "1 * int (nat \<bar>YearFromTime t\<bar>) = YearFromTime t"
        using nonneg by simp
      show "1 = (1::int) \<or> 0 < nat \<bar>YearFromTime t\<bar>"
        by simp
    qed
    then show ?thesis
      using nonneg by (simp add: ISOString_expanded [OF assms False] parseISOString_def)
  qed
qed

lemma matches_date_time:
  assumes "length ys = length a" "list_all placeholder ys" "list_all is_digit a"
  shows "matches (ys @ ''-MM-DDTHH:mm:ss.sssZ'')
     (a @ ''-'' @ fixedDecimal 2 mo @ ''-'' @ fixedDecimal 2 d @ ''T'' @
      fixedDecimal 2 h @ '':'' @ fixedDecimal 2 mi @ '':'' @ fixedDecimal 2 s @ ''.'' @
      fixedDecimal 3 ms @ ''Z'')"
proof -
  have sep: "matches (''-'' @ ps) (''-'' @ s) = matches ps s"
      "matches (''T'' @ ps) (''T'' @ s) = matches ps s"
      "matches ('':'' @ ps) ('':'' @ s) = matches ps s"
      "matches (''.'' @ ps) (''.'' @ s) = matches ps s" for ps s
    by (simp_all add: placeholder_def)
  have z: "matches ''Z'' ''Z''"
    by (simp add: placeholder_def)
  have pl: "list_all placeholder ''MM''" "list_all placeholder ''DD''"
      "list_all placeholder ''HH''" "list_all placeholder ''mm''"
      "list_all placeholder ''ss''" "list_all placeholder ''sss''"
    by (simp_all add: placeholder_def)
  have len: "length ''MM'' = 2" "length ''DD'' = 2" "length ''HH'' = 2"
      "length ''mm'' = 2" "length ''ss'' = 2" "length ''sss'' = 3"
    by simp_all
  have "matches
      (ys @ ''-'' @ ''MM'' @ ''-'' @ ''DD'' @ ''T'' @ ''HH'' @ '':'' @ ''mm'' @ '':'' @
         ''ss'' @ ''.'' @ ''sss'' @ ''Z'')
      (a @ ''-'' @ fixedDecimal 2 mo @ ''-'' @ fixedDecimal 2 d @ ''T'' @
         fixedDecimal 2 h @ '':'' @ fixedDecimal 2 mi @ '':'' @ fixedDecimal 2 s @ ''.'' @
         fixedDecimal 3 ms @ ''Z'')"
    using assms(2,3)
    by (simp only: matches_digits assms(1) [symmetric] len length_fixedDecimal
        fixedDecimal_digits pl sep z)
  then show ?thesis
    by simp
qed

lemma ISOString_expanded_form:
  assumes "time_value t" "\<not> fourDigitYear t"
  shows "expanded_form (ISOString t)"
proof -
  have "matches (''YYYYYY'' @ ''-MM-DDTHH:mm:ss.sssZ'')
     (fixedDecimal 6 (nat \<bar>YearFromTime t\<bar>) @ ''-'' @
      fixedDecimal 2 (nat (MonthFromTime t + 1)) @ ''-'' @
      fixedDecimal 2 (nat (DateFromTime t)) @ ''T'' @
      fixedDecimal 2 (nat (HourFromTime t)) @ '':'' @
      fixedDecimal 2 (nat (MinFromTime t)) @ '':'' @
      fixedDecimal 2 (nat (SecFromTime t)) @ ''.'' @
      fixedDecimal 3 (nat (msFromTime t)) @ ''Z'')"
    by (rule matches_date_time) (simp_all add: length_fixedDecimal fixedDecimal_digits placeholder_def)
  then show ?thesis
    by (cases "YearFromTime t < 0") (simp_all add: expanded_form_def ISOString_expanded [OF assms])
qed

section \<open>Worlds and calls\<close>

lemma mono_clock_2026: "mono clock_2026"
  by (simp add: mono_def clock_2026_def)

lemma timestampOf_successResponse:
  "timestampOf (successResponse v w) = Some (ISOString (clock w (ticks w)))"
  by (simp add: timestampOf_def successResponse_result getProp_def)

lemma timestampOf_errorResponse:
  "timestampOf (errorResponse s w) = Some (ISOString (clock w (ticks w)))"
  by (simp add: timestampOf_def errorResponse_result getProp_def)

lemma snd_successResponse: "snd (successResponse v w) = w\<lparr>ticks := Suc (ticks w)\<rparr>"
  by (simp add: successResponse_result)

lemma snd_errorResponse: "snd (errorResponse s w) = w\<lparr>ticks := Suc (ticks w)\<rparr>"
  by (simp add: errorResponse_result)

lemma instantOf_successResponse:
  "time_value (clock w (ticks w)) \<Longrightarrow>
     instantOf (successResponse v w) = Some (clock w (ticks w))"
  by (simp add: instantOf_def timestampOf_successResponse parseISOString_ISOString)

lemma instantOf_errorResponse:
  "time_value (clock w (ticks w)) \<Longrightarrow>
     instantOf (errorResponse s w) = Some (clock w (ticks w))"
  by (simp add: instantOf_def timestampOf_errorResponse parseISOString_ISOString)

section \<open>The timestamp of an envelope\<close>

text \<open>
  C5: for every call to either constructor, the timestamp of the returned envelope is the
  one wall-clock reading made during the call, formatted by \<^verbatim>\<open>toISOString\<close> as an ISO-8601
  string with millisecond precision: read back, the string gives exactly that reading, and
  it has the form \<^verbatim>\<open>YYYY-MM-DDTHH:mm:ss.sssZ\<close>, where the standard conversion writes a year
  outside 0000 to 9999 with a sign and six digits. With a non-decreasing clock, the
  reading is no earlier than any reading made before the call and no later than any
  reading made after it.
\<close>

theorem timestamp_is_clock_reading:
  "(\<exists>obj w'. successResponse v w = (Inr obj, w') \<and>
      getProp obj ''timestamp'' = Some (JString (ISOString (clock w (ticks w)))) \<and>
      w' = w\<lparr>ticks := Suc (ticks w)\<rparr>) \<and>
   (\<exists>(obj :: 'b object) w'. errorResponse s w = (Inr obj, w') \<and>
      getProp obj ''timestamp'' = Some (JString (ISOString (clock w (ticks w)))) \<and>
      w' = w\<lparr>ticks := Suc (ticks w)\<rparr>) \<and>
   (time_value (clock w (ticks w)) \<longrightarrow>
      parseISOString (ISOString (clock w (ticks w))) = Some (clock w (ticks w)) \<and>
      (if fourDigitYear (clock w (ticks w)) then iso_form (ISOString (clock w (ticks w)))
       else expanded_form (ISOString (clock w (ticks w))))) \<and>
   (fourDigitYear (clock w (ticks w)) \<longrightarrow> iso_form (ISOString (clock w (ticks w)))) \<and>
   (mono (clock w) \<longrightarrow>
      (\<forall>i j. i < ticks w \<and> Suc (ticks w) \<le> j \<longrightarrow>
         clock w i \<le> clock w (ticks w) \<and> clock w (ticks w) \<le> clock w j))"
proof -
  have "clock w i \<le> clock w (ticks w) \<and> clock w (ticks w) \<le> clock w j"
    if "mono (clock w)" "i < ticks w" "Suc (ticks w) \<le> j" for i j
    using that by (simp add: monoD)
  then show ?thesis
    by (auto simp: successResponse_result errorResponse_result getProp_def ISOString_iso_form
        ISOString_expanded_form parseISOString_ISOString)
qed

theorem timestamp_is_clock_reading_witness:
  "time_value (clock world_2026 (ticks world_2026)) \<and>
   fourDigitYear (clock world_2026 (ticks world_2026)) \<and>
   mono (clock world_2026) \<and>
   timestampOf (successResponse True world_2026) = Some ''2026-02-23T12:34:56.789Z'' \<and>
   iso_form ''2026-02-23T12:34:56.789Z'' \<and>
   parseISOString ''2026-02-23T12:34:56.789Z'' = Some 1771850096789 \<and>
   clock world_2026 0 \<le> clock world_2026 (ticks world_2026) \<and>
   clock world_2026 (ticks world_2026) \<le> clock world_2026 2"
proof -
  have t: "clock world_2026 (ticks world_2026) = 1771850096789"
    by (simp add: world_2026_def clock_2026_def)
  have y: "fourDigitYear (clock world_2026 (ticks world_2026))"
    by (simp add: t fourDigitYear_iff)
  have v: "time_value (clock world_2026 (ticks world_2026))"
    by (simp add: t time_value_def)
  have m: "mono (clock world_2026)"
    by (simp add: world_2026_def mono_clock_2026)
  have i: "0 < ticks world_2026 \<and> Suc (ticks world_2026) \<le> 2"
    by (simp add: world_2026_def)
  from timestamp_is_clock_reading [of True world_2026] y v m i
  have "iso_form (ISOString (clock world_2026 (ticks world_2026)))"
    and "parseISOString (ISOString (clock world_2026 (ticks world_2026))) =
      Some (clock world_2026 (ticks world_2026))"
    and "clock world_2026 0 \<le> clock world_2026 (ticks world_2026)"
    and "clock world_2026 (ticks world_2026) \<le> clock world_2026 2"
    by blast+
  then show ?thesis
    using y v m by (simp add: t timestampOf_successResponse ISOString_2026)
qed

text \<open>
  C6: for two consecutive calls to either constructor, in either order and with any
  inputs, when the clock is non-decreasing, the timestamp of the second envelope is
  greater than or equal to the timestamp of the first: the instants that the two
  timestamps denote are in this order.
\<close>

theorem consecutive_timestamps_ordered:
  assumes "mono (clock w)"
    and "time_value (clock w (ticks w))"
    and "time_value (clock w (Suc (ticks w)))"
  shows "timestamps_ordered (successResponse v w)
           (successResponse v' (snd (successResponse v w))) \<and>
         timestamps_ordered (successResponse v w)
           (errorResponse s' (snd (successResponse v w)) :: (exn + 'c object) \<times> world) \<and>
         timestamps_ordered (errorResponse s w :: (exn + 'd object) \<times> world)
           (successResponse v' (snd (errorResponse s w :: (exn + 'd object) \<times> world))) \<and>
         timestamps_ordered (errorResponse s w :: (exn + 'd object) \<times> world)
           (errorResponse s' (snd (errorResponse s w :: (exn + 'd object) \<times> world))
              :: (exn + 'c object) \<times> world)"
proof -
  have "clock w (ticks w) \<le> clock w (Suc (ticks w))"
    using assms(1) by (simp add: monoD)
  then show ?thesis
    using assms(2,3)
    by (simp add: timestamps_ordered_def instantOf_successResponse instantOf_errorResponse
        snd_successResponse snd_errorResponse)
qed

theorem consecutive_timestamps_ordered_witness:
  "mono (clock world_2026) \<and>
   time_value (clock world_2026 (ticks world_2026)) \<and>
   time_value (clock world_2026 (Suc (ticks world_2026))) \<and>
   timestampOf (successResponse True world_2026) = Some ''2026-02-23T12:34:56.789Z'' \<and>
   timestampOf (errorResponse ''fail'' (snd (successResponse True world_2026))
     :: (exn + unit object) \<times> world) = Some ''2026-02-23T12:34:56.790Z'' \<and>
   timestamps_ordered (successResponse True world_2026)
     (errorResponse ''fail'' (snd (successResponse True world_2026))
        :: (exn + unit object) \<times> world)"
proof -
  have m: "mono (clock world_2026)"
    by (simp add: world_2026_def mono_clock_2026)
  have v1: "time_value (clock world_2026 (ticks world_2026))"
    by (simp add: world_2026_def clock_2026_def time_value_def)
  have v2: "time_value (clock world_2026 (Suc (ticks world_2026)))"
    by (simp add: world_2026_def clock_2026_def time_value_def)
  have 1: "timestampOf (successResponse True world_2026) = Some ''2026-02-23T12:34:56.789Z''"
    by (simp add: timestampOf_successResponse world_2026_def clock_2026_def ISOString_2026)
  have 2: "timestampOf (errorResponse ''fail'' (snd (successResponse True world_2026))
      :: (exn + unit object) \<times> world) = Some ''2026-02-23T12:34:56.790Z''"
    by (simp add: timestampOf_errorResponse snd_successResponse world_2026_def
        clock_2026_def ISOString_2026_next)
  show ?thesis
    using m v1 v2 1 2
      consecutive_timestamps_ordered [OF m v1 v2, of True True "''fail''" "''fail''"]
    by blast
qed

end
